theory Spec2Isabelle
  imports Main "HOL-Library.AList"
begin

section \<open>Python values: errors, dictionaries, strings\<close>

text \<open>
  The module \<^verbatim>\<open>maya_signatures/commands/scrape.py\<close> is Python 2 (it calls the builtin
  \<^verbatim>\<open>unicode\<close>). Every exception the modelled code can raise is a constructor of
  \<open>py_error\<close>; a function that can raise returns \<open>py_error + 'a\<close> with \<open>Inl\<close> the
  exception.
\<close>

datatype py_error =
  IndexError | AttributeError | UnicodeEncodeError | ValueError | KeyError | IOError
  | ConnectionError

text \<open>
  A \<^verbatim>\<open>dict\<close> is an association list with one entry per key. Python 2 does not fix
  the iteration order of a dict; the list order stands for whatever order the
  interpreter uses, and \<open>dict_set\<close> (\<^verbatim>\<open>d[k] = v\<close>) overwrites the entry of a key that
  is present and adds one otherwise.
\<close>

type_synonym ('k, 'v) dict = "('k \<times> 'v) list"

definition dict_contains :: "('k, 'v) dict \<Rightarrow> 'k \<Rightarrow> bool" where
  "dict_contains d k = (map_of d k \<noteq> None)"

definition dict_get :: "('k, 'v) dict \<Rightarrow> 'k \<Rightarrow> py_error + 'v" where
  "dict_get d k = (case map_of d k of None \<Rightarrow> Inl KeyError | Some v \<Rightarrow> Inr v)"

definition dict_set :: "'k \<Rightarrow> 'v \<Rightarrow> ('k, 'v) dict \<Rightarrow> ('k, 'v) dict" where
  "dict_set k v d = AList.update k v d"

text \<open>
  Strings are \<open>char list\<close>. A character below 128 is ASCII; a character from 128 on
  stands for a non-ASCII code point of a \<^verbatim>\<open>unicode\<close> object. \<open>is_space\<close> is the
  whitespace that \<^verbatim>\<open>unicode.strip()\<close> removes, as far as it fits in one byte:
  U+0009..U+000D, U+001C..U+0020, U+0085 and U+00A0.
\<close>

definition is_space :: "char \<Rightarrow> bool" where
  "is_space c = (let n = (of_char c :: nat) in
     (9 \<le> n \<and> n \<le> 13) \<or> (28 \<le> n \<and> n \<le> 32) \<or> n = 133 \<or> n = 160)"

definition is_ascii :: "char \<Rightarrow> bool" where
  "is_ascii c = ((of_char c :: nat) < 128)"

definition py_strip :: "string \<Rightarrow> string" where
  "py_strip s = rev (dropWhile is_space (rev (dropWhile is_space s)))"

text \<open>\<^verbatim>\<open>str(u)\<close> of a unicode object encodes with the ASCII codec and raises otherwise.\<close>

definition py_str :: "string \<Rightarrow> py_error + string" where
  "py_str u = (if list_all is_ascii u then Inr u else Inl UnicodeEncodeError)"

text \<open>\<^verbatim>\<open>s.replace(a, b)\<close> for one-character \<open>a\<close>, \<open>b\<close>, and \<^verbatim>\<open>s.replace(a, '')\<close>.\<close>

definition replace_char :: "char \<Rightarrow> char \<Rightarrow> string \<Rightarrow> string" where
  "replace_char a b s = map (\<lambda>c. if c = a then b else c) s"

definition remove_char :: "char \<Rightarrow> string \<Rightarrow> string" where
  "remove_char a s = filter (\<lambda>c. c \<noteq> a) s"

text \<open>\<^verbatim>\<open>s.split(sep)\<close> for a one-character separator: one part more than separators.\<close>

fun py_split :: "char \<Rightarrow> string \<Rightarrow> string list" where
  "py_split sep [] = [[]]"
| "py_split sep (c # cs) =
     (if c = sep then [] # py_split sep cs
      else (case py_split sep cs of
              [] \<Rightarrow> [[c]]
            | p # ps \<Rightarrow> (c # p) # ps))"

text \<open>\<^verbatim>\<open>sep.join(parts)\<close>.\<close>

fun py_join :: "string \<Rightarrow> string list \<Rightarrow> string" where
  "py_join sep [] = []"
| "py_join sep [p] = p"
| "py_join sep (p # q # ps) = p @ sep @ py_join sep (q # ps)"

text \<open>\<^verbatim>\<open>needle in haystack\<close> on strings: the needle occurs as a contiguous run.\<close>

fun starts_with :: "string \<Rightarrow> string \<Rightarrow> bool" where
  "starts_with s [] = True"
| "starts_with [] (p # ps) = False"
| "starts_with (c # cs) (p # ps) = (c = p \<and> starts_with cs ps)"

fun py_in :: "string \<Rightarrow> string \<Rightarrow> bool" where
  "py_in needle [] = (needle = [])"
| "py_in needle (c # cs) = (starts_with (c # cs) needle \<or> py_in needle cs)"

text \<open>\<^verbatim>\<open>range(start, stop, step)\<close> for a positive step, and \<^verbatim>\<open>xs[i:j]\<close> for \<open>0 \<le> i \<le> j\<close>.\<close>

function py_range :: "nat \<Rightarrow> nat \<Rightarrow> nat \<Rightarrow> nat list" where
  "py_range start stop step =
     (if 0 < step \<and> start < stop then start # py_range (start + step) stop step else [])"
  by pat_completeness auto
termination
  by (relation "measure (\<lambda>(start, stop, step). stop - start)") auto

declare py_range.simps [simp del]

definition py_slice :: "'a list \<Rightarrow> nat \<Rightarrow> nat \<Rightarrow> 'a list" where
  "py_slice xs i j = take (j - i) (drop i xs)"


section \<open>The page as the parser sees it\<close>

text \<open>
  BeautifulSoup is a library; the model keeps of a parsed page what
  \<^verbatim>\<open>_parse_flag_table\<close> reads of it. A cell is a \<^verbatim>\<open>td\<close> tag: \<open>td_colspan\<close> is
  \<^verbatim>\<open>attrs.get('colspan')\<close> and \<open>td_text\<close> is its \<^verbatim>\<open>.text\<close> (a unicode object). A table
  has \<open>rows_markup\<close>, the value of \<^verbatim>\<open>unicode(table.find_all('tr'))\<close>, and \<open>cells\<close>, the
  value of \<^verbatim>\<open>table.find_all('td')\<close>. A page has \<open>body_tables\<close>, the value of
  \<^verbatim>\<open>body.find_all('table')\<close> in document order, or \<open>None\<close> when the page has no
  \<^verbatim>\<open>body\<close> (then \<^verbatim>\<open>soup.body\<close> is None and the attribute access raises).
\<close>

record td =
  td_colspan :: "string option"
  td_text :: string

record table =
  rows_markup :: string
  cells :: "td list"

record soup =
  body_tables :: "table list option"


section \<open>\<^verbatim>\<open>_parse_flag_table\<close>\<close>

definition header_marker :: string where
  "header_marker = ''Long name (short name)''"

text \<open>
  Lines 196 to 200: what one cell adds to \<^verbatim>\<open>data\<close>, given \<^verbatim>\<open>text\<close> as line 194
  leaves it.
\<close>

definition cell_elements :: "string \<Rightarrow> string list" where
  "cell_elements text =
     (if length (py_split CHR ''('' text) = 2 \<and> \<not> py_in '' '' text
      then map (remove_char CHR '')'') (py_split CHR ''('' text)
      else if text \<noteq> [] then [text]
      else [])"

text \<open>Lines 193 and 194: a cell with a colspan is skipped; \<^verbatim>\<open>str\<close> can raise.\<close>

definition td_elements :: "td \<Rightarrow> py_error + string list" where
  "td_elements table_row =
     (if td_colspan table_row = None
      then (case py_str (py_strip (td_text table_row)) of
              Inl e \<Rightarrow> Inl e
            | Inr s \<Rightarrow> Inr (cell_elements (replace_char CHR 0x0A CHR '' '' s)))
      else Inr [])"

text \<open>The loop of line 191, with \<^verbatim>\<open>data\<close> as the accumulator.\<close>

fun collect_cells :: "td list \<Rightarrow> string list \<Rightarrow> py_error + string list" where
  "collect_cells [] data = Inr data"
| "collect_cells (table_row # rest) data =
     (case td_elements table_row of
        Inl e \<Rightarrow> Inl e
      | Inr els \<Rightarrow> collect_cells rest (data @ els))"

text \<open>Line 202: \<^verbatim>\<open>[data[x:x + 4] for x in range(0, len(data), 4)]\<close>.\<close>

definition group_by_four :: "'a list \<Rightarrow> 'a list list" where
  "group_by_four data = map (\<lambda>x. py_slice data x (x + 4)) (py_range 0 (length data) 4)"

text \<open>
  Lines 187 and 188: the comprehension keeps the tables whose rows' markup contains the
  marker, and \<^verbatim>\<open>[0]\<close> takes the first (IndexError on the empty list).
\<close>

definition is_signature_table :: "table \<Rightarrow> bool" where
  "is_signature_table t = py_in header_marker (rows_markup t)"

definition parse_flag_table :: "soup \<Rightarrow> py_error + string list list" where
  "parse_flag_table soup_code_object =
     (case body_tables soup_code_object of
        None \<Rightarrow> Inl AttributeError
      | Some tables \<Rightarrow>
          (case filter is_signature_table tables of
             [] \<Rightarrow> Inl IndexError
           | signature_table # _ \<Rightarrow>
               (case collect_cells (cells signature_table) [] of
                  Inl e \<Rightarrow> Inl e
                | Inr data \<Rightarrow> Inr (group_by_four data))))"


section \<open>\<^verbatim>\<open>_compile_flag_table\<close>\<close>

record flag_record =
  short :: string
  data_type :: string
  description :: string

type_synonym signature = "(string, flag_record) dict"

text \<open>
  The loop of line 213 with \<^verbatim>\<open>flags\<close> as the accumulator; the unpacking of line 214
  raises ValueError unless the group has exactly four elements.
\<close>

fun compile_loop :: "string list list \<Rightarrow> signature \<Rightarrow> py_error + signature" where
  "compile_loop [] flags = Inr flags"
| "compile_loop (flag_data # rest) flags =
     (case flag_data of
        [name, sh, ty, descr] \<Rightarrow>
          compile_loop rest
            (dict_set name \<lparr>short = sh, data_type = ty, description = descr\<rparr> flags)
      | _ \<Rightarrow> Inl ValueError)"

definition compile_flag_table :: "string list list \<Rightarrow> py_error + signature" where
  "compile_flag_table flag_data_set = compile_loop flag_data_set []"

text \<open>Lines 79 to 81 of \<^verbatim>\<open>scrape_command\<close>: parse, then compile.\<close>

definition parse_then_compile :: "soup \<Rightarrow> py_error + signature" where
  "parse_then_compile soup_data =
     (case parse_flag_table soup_data of
        Inl e \<Rightarrow> Inl e
      | Inr raw_flag_table \<Rightarrow> compile_flag_table raw_flag_table)"

section \<open>The scraper's state\<close>

text \<open>
  What the methods of \<^verbatim>\<open>Scrape\<close> read and write: the memoizer's dictionary
  \<^verbatim>\<open>scrape_command.cache\<close> (URL to signature), the instance's \<^verbatim>\<open>command_signatures\<close>
  (command to signature), the contents of the cache file \<^verbatim>\<open>scrape.json\<close> (\<open>None\<close> when
  opening it for reading raises IOError), the contents of the named temporary files
  left on disk (they are created with \<^verbatim>\<open>delete=False\<close>), and the URLs requested so
  far. Opening a file for writing and writing to it are taken to succeed.
\<close>

record scrape_state =
  cache :: "(string, signature) dict"
  command_signatures :: "(string, signature) dict"
  cache_file :: "string option"
  temp_files :: "string list"
  requests :: "string list"


section \<open>\<^verbatim>\<open>scrape_command\<close> and \<^verbatim>\<open>_store_commands\<close>\<close>

text \<open>
  Lines 75 to 81, the function under the decorator. \<open>web\<close> stands for
  \<^verbatim>\<open>requests.get\<close> followed by \<^verbatim>\<open>BeautifulSoup(..., 'html.parser')\<close>: the parsed page of a
  URL, or the exception of the transport.
\<close>

definition scrape_command_body ::
  "(string \<Rightarrow> py_error + soup) \<Rightarrow> string \<Rightarrow> scrape_state
     \<Rightarrow> (py_error + signature) \<times> scrape_state" where
  "scrape_command_body web maya_command_url st =
     (let st' = st\<lparr>requests := requests st @ [maya_command_url]\<rparr> in
      case web maya_command_url of
        Inl e \<Rightarrow> (Inl e, st')
      | Inr soup_data \<Rightarrow> (parse_then_compile soup_data, st'))"

text \<open>
  Modelled from the spec: the decorator \<^verbatim>\<open>KeyMemoized\<close> of
  \<^verbatim>\<open>maya_signatures/commands/cache.py\<close>, which is not among the sources. Section 4.1:
  if the key exists in the in-memory cache, return the stored value without invoking
  the compute function; otherwise invoke the compute function on the key, store the
  result under the key, and return it. An exception of the compute function passes
  through and stores nothing.
\<close>

definition key_memoized ::
  "(string \<Rightarrow> scrape_state \<Rightarrow> (py_error + signature) \<times> scrape_state)
     \<Rightarrow> string \<Rightarrow> scrape_state \<Rightarrow> (py_error + signature) \<times> scrape_state" where
  "key_memoized compute_fn key st =
     (if dict_contains (cache st) key then (dict_get (cache st) key, st)
      else (case compute_fn key st of
              (Inl e, st') \<Rightarrow> (Inl e, st')
            | (Inr v, st') \<Rightarrow> (Inr v, st'\<lparr>cache := dict_set key v (cache st')\<rparr>)))"

text \<open>Line 67: \<^verbatim>\<open>scrape_command\<close> is the decorated function.\<close>

definition scrape_command ::
  "(string \<Rightarrow> py_error + soup) \<Rightarrow> string \<Rightarrow> scrape_state
     \<Rightarrow> (py_error + signature) \<times> scrape_state" where
  "scrape_command web = key_memoized (scrape_command_body web)"

text \<open>Lines 142 to 144, with the class constants of lines 16 to 18 substituted.\<close>

definition build_url :: "string \<Rightarrow> string \<Rightarrow> string" where
  "build_url maya_version command =
     (''http://help.autodesk.com/cloudhelp/'' @ maya_version
        @ ''/ENU/Maya-Tech-Docs/CommandsPython/'') @ command @ ''.'' @ ''html''"

text \<open>
  The loop of lines 154 to 156 over the list of commands (a single string has been
  wrapped into a list by line 152).
\<close>

fun store_commands ::
  "(string \<Rightarrow> py_error + soup) \<Rightarrow> string \<Rightarrow> string list \<Rightarrow> scrape_state
     \<Rightarrow> (py_error + unit) \<times> scrape_state" where
  "store_commands web maya_version [] st = (Inr (), st)"
| "store_commands web maya_version (maya_command # rest) st =
     (case scrape_command web (build_url maya_version maya_command) st of
        (Inl e, st') \<Rightarrow> (Inl e, st')
      | (Inr sig, st') \<Rightarrow>
          store_commands web maya_version rest
            (st'\<lparr>command_signatures := dict_set maya_command sig (command_signatures st')\<rparr>))"


section \<open>The cache file: \<^verbatim>\<open>_read_tempfile\<close>, \<^verbatim>\<open>_write_tempfile\<close>, \<^verbatim>\<open>reset_cache\<close>\<close>

text \<open>\<^verbatim>\<open>open(self._CACHE_FILE)\<close> for reading.\<close>

definition open_read :: "scrape_state \<Rightarrow> py_error + string" where
  "open_read st = (case cache_file st of None \<Rightarrow> Inl IOError | Some contents \<Rightarrow> Inr contents)"

text \<open>
  Lines 126 to 135. \<open>json_load\<close> stands for \<^verbatim>\<open>json.load\<close> on the file's contents: the
  decoded dictionary, or \<open>None\<close> when it raises ValueError. The inner handler replaces
  the data by an empty dict; the outer handler of IOError only prints.
\<close>

definition read_tempfile ::
  "(string \<Rightarrow> (string, signature) dict option) \<Rightarrow> scrape_state
     \<Rightarrow> (py_error + unit) \<times> scrape_state" where
  "read_tempfile json_load st =
     (case open_read st of
        Inl e \<Rightarrow> (if e = IOError then (Inr (), st) else (Inl e, st))
      | Inr contents \<Rightarrow>
          (let data = (case json_load contents of None \<Rightarrow> [] | Some d \<Rightarrow> d)
           in (Inr (), st\<lparr>cache := data\<rparr>)))"

text \<open>
  Lines 162 to 166. \<open>json_dumps\<close> stands for \<^verbatim>\<open>json.dumps\<close> with its keyword
  arguments. The steps are the states of the files after each effect: the temporary
  file is created empty, it holds the text once written and closed, and
  \<^verbatim>\<open>shutil.copy\<close> opens the cache file for writing, which truncates it, before it
  copies the contents in.
\<close>

record dumps_options =
  ensure_ascii :: bool
  indent :: "nat option"
  sort_keys :: bool

definition write_tempfile_steps ::
  "(dumps_options \<Rightarrow> (string, signature) dict \<Rightarrow> string) \<Rightarrow> scrape_state
     \<Rightarrow> scrape_state list" where
  "write_tempfile_steps json_dumps st =
     (let dumped = json_dumps \<lparr>ensure_ascii = False, indent = Some 4, sort_keys = True\<rparr>
                     (cache st);
          st1 = st\<lparr>temp_files := temp_files st @ ['''']\<rparr>;
          st2 = st1\<lparr>temp_files := temp_files st @ [dumped]\<rparr>;
          st3 = st2\<lparr>cache_file := Some ''''\<rparr>;
          st4 = st3\<lparr>cache_file := Some (last (temp_files st2))\<rparr>
      in [st1, st2, st3, st4])"

definition write_tempfile ::
  "(dumps_options \<Rightarrow> (string, signature) dict \<Rightarrow> string) \<Rightarrow> scrape_state
     \<Rightarrow> (py_error + unit) \<times> scrape_state" where
  "write_tempfile json_dumps st = (Inr (), last (write_tempfile_steps json_dumps st))"

text \<open>Line 89: \<^verbatim>\<open>open(self._CACHE_FILE, 'w').close()\<close>.\<close>

definition reset_cache :: "scrape_state \<Rightarrow> (py_error + unit) \<times> scrape_state" where
  "reset_cache st = (Inr (), st\<lparr>cache_file := Some ''''\<rparr>)"


section \<open>\<^verbatim>\<open>build_command_stub\<close>\<close>

definition lut :: "(string, string) dict" where
  "lut = [(''boolean'', ''bool''), (''string'', ''str''), (''int'', ''int'')]"

text \<open>The loop of lines 114 to 118, with \<^verbatim>\<open>kwargs\<close> as the accumulator.\<close>

fun stub_kwargs ::
  "bool \<Rightarrow> bool \<Rightarrow> (string \<times> flag_record) list \<Rightarrow> string list
     \<Rightarrow> py_error + string list" where
  "stub_kwargs shortname combined [] kwargs = Inr kwargs"
| "stub_kwargs shortname combined ((k, v) # rest) kwargs =
     (let flag = (if \<not> shortname then k else short v);
          flag = (if combined then flag @ ''('' @ short v @ '')'' else flag)
      in case dict_get lut (data_type v) of
           Inl e \<Rightarrow> Inl e
         | Inr ty \<Rightarrow> stub_kwargs shortname combined rest (kwargs @ [flag @ ''='' @ ty]))"

text \<open>Lines 110 to 120; the last line is a newline, a tab and \<^verbatim>\<open>pass\<close>.\<close>

definition build_command_stub ::
  "scrape_state \<Rightarrow> string \<Rightarrow> bool \<Rightarrow> bool \<Rightarrow> py_error + string" where
  "build_command_stub st command shortname combined =
     (let shortname' = (if combined then False else shortname) in
      case dict_get (command_signatures st) command of
        Inl e \<Rightarrow> Inl e
      | Inr items \<Rightarrow>
          (case stub_kwargs shortname' combined items [] of
             Inl e \<Rightarrow> Inl e
           | Inr kwargs \<Rightarrow>
               Inr (''def '' @ command @ ''(*args, '' @ py_join '', '' kwargs @ ''):''
                      @ [CHR 0x0A, CHR 0x09] @ ''pass'')))"


section \<open>Facts about the string functions\<close>

lemma py_split_not_Nil: "py_split sep s \<noteq> []"
  by (induction s) (auto split: list.splits)

lemma py_split_no_sep: "sep \<notin> set s \<Longrightarrow> py_split sep s = [s]"
  by (induction s) auto

lemma py_split_append_sep:
  "sep \<notin> set a \<Longrightarrow> py_split sep (a @ sep # b) = a # py_split sep b"
  by (induction a) (auto simp: py_split_not_Nil split: list.splits)

lemma py_split_length: "length (py_split sep s) = Suc (length (filter (\<lambda>c. c = sep) s))"
  by (induction s) (auto simp: py_split_not_Nil split: list.splits)

lemma py_split_concat_sep:
  "py_split sep s = p # ps \<Longrightarrow> s = p @ concat (map (\<lambda>q. sep # q) ps) \<and> sep \<notin> set p"
proof (induction s arbitrary: p ps)
  case Nil
  then show ?case by simp
next
  case (Cons c cs)
  show ?case
  proof (cases "c = sep")
    case True
    with Cons.prems have p: "p = []" and ps: "ps = py_split sep cs" by auto
    obtain q qs where q: "py_split sep cs = q # qs"
      using py_split_not_Nil [of sep cs] by (cases "py_split sep cs") auto
    from Cons.IH [OF q] have "cs = q @ concat (map (\<lambda>q. sep # q) qs)" by simp
    then show ?thesis using True p ps q by simp
  next
    case False
    obtain q qs where q: "py_split sep cs = q # qs"
      using py_split_not_Nil [of sep cs] by (cases "py_split sep cs") auto
    with False Cons.prems have p: "p = c # q" and ps: "ps = qs" by auto
    from Cons.IH [OF q] have "cs = q @ concat (map (\<lambda>q. sep # q) qs)" and "sep \<notin> set q"
      by simp_all
    then show ?thesis using False p ps by auto
  qed
qed

lemma py_split_two_iff:
  "py_split sep s = [a, b] \<longleftrightarrow> s = a @ sep # b \<and> sep \<notin> set a \<and> sep \<notin> set b"
proof
  assume h: "py_split sep s = [a, b]"
  from py_split_concat_sep [OF h] have s: "s = a @ sep # b" and a: "sep \<notin> set a" by simp_all
  have "py_split sep b = [b]" using h a unfolding s by (simp add: py_split_append_sep)
  then have "length (filter (\<lambda>c. c = sep) b) = 0"
    using py_split_length [of sep b] by simp
  then have "sep \<notin> set b" by (auto simp: filter_empty_conv)
  then show "s = a @ sep # b \<and> sep \<notin> set a \<and> sep \<notin> set b" using s a by simp
next
  assume "s = a @ sep # b \<and> sep \<notin> set a \<and> sep \<notin> set b"
  then show "py_split sep s = [a, b]"
    by (simp add: py_split_append_sep py_split_no_sep)
qed

lemma starts_with_iff: "starts_with s p \<longleftrightarrow> (\<exists>b. s = p @ b)"
  by (induction s p rule: starts_with.induct) auto

lemma py_in_iff: "py_in needle s \<longleftrightarrow> (\<exists>a b. s = a @ needle @ b)"
proof (induction s)
  case Nil
  then show ?case by auto
next
  case (Cons c cs)
  show ?case
  proof
    assume "py_in needle (c # cs)"
    then consider "starts_with (c # cs) needle" | "py_in needle cs" by auto
    then show "\<exists>a b. c # cs = a @ needle @ b"
    proof cases
      case 1
      then obtain b where "c # cs = needle @ b" by (auto simp: starts_with_iff)
      then have "c # cs = [] @ needle @ b" by simp
      then show ?thesis by blast
    next
      case 2
      then obtain a b where "cs = a @ needle @ b" using Cons.IH by auto
      then have "c # cs = (c # a) @ needle @ b" by simp
      then show ?thesis by blast
    qed
  next
    assume "\<exists>a b. c # cs = a @ needle @ b"
    then obtain a b where ab: "c # cs = a @ needle @ b" by auto
    show "py_in needle (c # cs)"
    proof (cases a)
      case Nil
      then have "starts_with (c # cs) needle" using ab by (auto simp: starts_with_iff)
      then show ?thesis by simp
    next
      case (Cons x a')
      then have "cs = a' @ needle @ b" using ab by simp
      then have "py_in needle cs" using Cons.IH by blast
      then show ?thesis by simp
    qed
  qed
qed

lemma py_in_char: "py_in [c] s \<longleftrightarrow> c \<in> set s"
  by (auto simp: py_in_iff in_set_conv_decomp)


section \<open>Grouping into fours\<close>

lemma py_range_shift:
  "py_range (start + d) (stop + d) step = map (\<lambda>x. x + d) (py_range start stop step)"
proof (induction start stop step rule: py_range.induct)
  case (1 start stop step)
  show ?case
  proof (cases "0 < step \<and> start < stop")
    case True
    then have "py_range (start + step + d) (stop + d) step =
        map (\<lambda>x. x + d) (py_range (start + step) stop step)"
      using "1.IH" by simp
    then show ?thesis using True
      by (subst py_range.simps, subst (2) py_range.simps) (simp add: ac_simps)
  next
    case False
    then show ?thesis
      by (subst py_range.simps, subst (2) py_range.simps) auto
  qed
qed

lemma group_by_four_Nil: "group_by_four [] = []"
  by (simp add: group_by_four_def py_range.simps)

lemma py_range_tail4: "py_range 4 n 4 = map (\<lambda>x. x + 4) (py_range 0 (n - 4) 4)"
proof (cases "4 \<le> n")
  case True
  then show ?thesis using py_range_shift [of 0 4 "n - 4" 4] by simp
next
  case False
  then show ?thesis by (simp add: py_range.simps [of 4] py_range.simps [of 0])
qed

lemma group_by_four_step:
  assumes "data \<noteq> []"
  shows "group_by_four data = take 4 data # group_by_four (drop 4 data)"
proof -
  have r: "py_range 0 (length data) 4 = 0 # py_range 4 (length data) 4"
    using assms by (subst py_range.simps) simp
  show ?thesis
    unfolding group_by_four_def r py_range_tail4
    by (simp add: py_slice_def o_def add.commute)
qed

lemma group_by_four_concat: "concat (group_by_four data) = data"
proof (induction data rule: length_induct)
  case (1 xs)
  show ?case
  proof (cases "xs = []")
    case True
    then show ?thesis by (simp add: group_by_four_Nil)
  next
    case False
    then have "length (drop 4 xs) < length xs" by simp
    then have "concat (group_by_four (drop 4 xs)) = drop 4 xs" using 1 by blast
    then show ?thesis using False by (simp add: group_by_four_step)
  qed
qed

lemma group_by_four_length: "length (group_by_four data) = (length data + 3) div 4"
proof (induction data rule: length_induct)
  case (1 xs)
  show ?case
  proof (cases "xs = []")
    case True
    then show ?thesis by (simp add: group_by_four_Nil)
  next
    case False
    then have "length (drop 4 xs) < length xs" by simp
    then have "length (group_by_four (drop 4 xs)) = (length (drop 4 xs) + 3) div 4"
      using 1 by blast
    moreover have "Suc ((length xs - 4 + 3) div 4) = (length xs + 3) div 4"
    proof -
      have "0 < length xs" using False by simp
      then show ?thesis by arith
    qed
    ultimately show ?thesis using False by (simp add: group_by_four_step)
  qed
qed

lemma group_by_four_nth:
  "k < length (group_by_four data) \<Longrightarrow> group_by_four data ! k = take 4 (drop (4 * k) data)"
proof (induction k arbitrary: data)
  case 0
  then have "data \<noteq> []" by (auto simp: group_by_four_Nil)
  then show ?case by (simp add: group_by_four_step)
next
  case (Suc k)
  then have ne: "data \<noteq> []" by (auto simp: group_by_four_Nil)
  with Suc.prems have "k < length (group_by_four (drop 4 data))"
    by (simp add: group_by_four_step)
  then have "group_by_four (drop 4 data) ! k = take 4 (drop (4 * k) (drop 4 data))"
    by (rule Suc.IH)
  then show ?case using ne by (simp add: group_by_four_step add.commute)
qed

lemma group_by_four_two:
  assumes "4 < length data" and "length data \<le> 8"
  shows "group_by_four data = [take 4 data, drop 4 data]"
proof -
  have "data \<noteq> []" and "drop 4 data \<noteq> []" using assms by auto
  then have "group_by_four data =
      [take 4 data, take 4 (drop 4 data)] @ group_by_four (drop 4 (drop 4 data))"
    by (simp add: group_by_four_step)
  then show ?thesis using assms by (simp add: group_by_four_Nil)
qed

text \<open>
  C4. The grouping step of \<^verbatim>\<open>_parse_flag_table\<close> (line 202) cuts the flat element list
  into consecutive chunks of four, in order: chunk \<open>k\<close> is elements \<open>4k\<close> to \<open>4k + 3\<close>
  (fewer for a last, shorter chunk), there are \<open>\<lceil>n / 4\<rceil>\<close> chunks and they concatenate
  back to the list. Eight elements give two chunks of four; seven give a chunk of four
  followed by a remainder of three. The step is total: it raises nothing.
\<close>

theorem group_by_four_chunks:
  "length (group_by_four data) = (length data + 3) div 4
   \<and> (\<forall>k < length (group_by_four data). group_by_four data ! k = take 4 (drop (4 * k) data))
   \<and> concat (group_by_four data) = data
   \<and> (length data = 8 \<longrightarrow>
        group_by_four data = [take 4 data, drop 4 data]
        \<and> length (take 4 data) = 4 \<and> length (drop 4 data) = 4)
   \<and> (length data = 7 \<longrightarrow>
        group_by_four data = [take 4 data, drop 4 data]
        \<and> length (take 4 data) = 4 \<and> length (drop 4 data) = 3)"
proof -
  have "length data = 8 \<longrightarrow> group_by_four data = [take 4 data, drop 4 data]"
    by (simp add: group_by_four_two)
  moreover have "length data = 7 \<longrightarrow> group_by_four data = [take 4 data, drop 4 data]"
    by (simp add: group_by_four_two)
  ultimately show ?thesis
    by (simp add: group_by_four_length group_by_four_nth group_by_four_concat)
qed

theorem group_by_four_chunks_witness:
  "group_by_four [''n1'', ''s1'', ''t1'', ''d1'', ''n2'', ''s2'', ''t2'']
     = [[''n1'', ''s1'', ''t1'', ''d1''], [''n2'', ''s2'', ''t2'']]
   \<and> group_by_four [''n1'', ''s1'', ''t1'', ''d1'', ''n2'', ''s2'', ''t2'', ''d2'']
     = [[''n1'', ''s1'', ''t1'', ''d1''], [''n2'', ''s2'', ''t2'', ''d2'']]"
  using group_by_four_chunks [of "[''n1'', ''s1'', ''t1'', ''d1'', ''n2'', ''s2'', ''t2'']"]
    group_by_four_chunks [of "[''n1'', ''s1'', ''t1'', ''d1'', ''n2'', ''s2'', ''t2'', ''d2'']"]
  by simp


section \<open>The rule for one cell\<close>

lemma cell_elements_two:
  assumes "py_split CHR ''('' text = [a, b]" and "CHR '' '' \<notin> set text"
  shows "cell_elements text = [remove_char CHR '')'' a, remove_char CHR '')'' b]"
  using assms by (simp add: cell_elements_def py_in_char)

lemma cell_elements_one:
  assumes "length (py_split CHR ''('' text) \<noteq> 2 \<or> CHR '' '' \<in> set text" and "text \<noteq> []"
  shows "cell_elements text = [text]"
  using assms by (auto simp: cell_elements_def py_in_char)

lemma cell_elements_Nil: "cell_elements [] = []"
  by (simp add: cell_elements_def)

lemma td_elements_ascii:
  assumes "td_colspan cell = None" and "list_all is_ascii (py_strip (td_text cell))"
  shows "td_elements cell =
     Inr (cell_elements (replace_char CHR 0x0A CHR '' '' (py_strip (td_text cell))))"
  using assms by (simp add: td_elements_def py_str_def)

text \<open>
  C2, as amended. For a cell without colspan whose trimmed text is ASCII, let \<open>text\<close> be
  the trimmed text with every newline replaced by a space (line 194). If \<open>text\<close> holds
  exactly one \<^verbatim>\<open>(\<close> and no space character, the cell contributes two elements: the part
  before and the part after the \<^verbatim>\<open>(\<close>, each with every \<^verbatim>\<open>)\<close> removed. Otherwise a non-empty
  \<open>text\<close> contributes itself as one element, unchanged, and an empty \<open>text\<close> contributes
  nothing.
\<close>

theorem td_elements_rule:
  assumes "td_colspan cell = None"
    and "list_all is_ascii (py_strip (td_text cell))"
    and "text = replace_char CHR 0x0A CHR '' '' (py_strip (td_text cell))"
  shows "(text = a @ ''('' @ b \<and> CHR ''('' \<notin> set a \<and> CHR ''('' \<notin> set b \<and> CHR '' '' \<notin> set text
            \<longrightarrow> td_elements cell = Inr [remove_char CHR '')'' a, remove_char CHR '')'' b])
       \<and> ((length (filter (\<lambda>c. c = CHR ''('') text) \<noteq> 1 \<or> CHR '' '' \<in> set text) \<and> text \<noteq> []
            \<longrightarrow> td_elements cell = Inr [text])
       \<and> (text = [] \<longrightarrow> td_elements cell = Inr [])"
proof -
  have e: "td_elements cell = Inr (cell_elements text)"
    using assms by (simp add: td_elements_ascii)
  have "text = a @ ''('' @ b \<and> CHR ''('' \<notin> set a \<and> CHR ''('' \<notin> set b \<and> CHR '' '' \<notin> set text
      \<longrightarrow> cell_elements text = [remove_char CHR '')'' a, remove_char CHR '')'' b]"
  proof
    assume h: "text = a @ ''('' @ b \<and> CHR ''('' \<notin> set a \<and> CHR ''('' \<notin> set b \<and> CHR '' '' \<notin> set text"
    then have "py_split CHR ''('' text = [a, b]" by (simp add: py_split_two_iff)
    moreover have "CHR '' '' \<notin> set text" using h by blast
    ultimately show "cell_elements text = [remove_char CHR '')'' a, remove_char CHR '')'' b]"
      by (rule cell_elements_two)
  qed
  moreover have "(length (filter (\<lambda>c. c = CHR ''('') text) \<noteq> 1 \<or> CHR '' '' \<in> set text) \<and> text \<noteq> []
      \<longrightarrow> cell_elements text = [text]"
    by (auto simp: py_split_length intro!: cell_elements_one)
  moreover have "text = [] \<longrightarrow> cell_elements text = []"
    by (simp add: cell_elements_Nil)
  ultimately show ?thesis unfolding e by simp
qed

text \<open>
  The rule at the cells \<^verbatim>\<open>translate(t)\<close> (two elements), \<^verbatim>\<open>linear step function\<close> with an
  embedded newline (one element) and a blank cell (no element).
\<close>

theorem td_elements_rule_witness:
  "td_elements \<lparr>td_colspan = None, td_text = '' translate(t)'' @ [CHR 0x0A]\<rparr>
      = Inr [''translate'', ''t'']
   \<and> td_elements \<lparr>td_colspan = None, td_text = ''linear step'' @ [CHR 0x0A] @ ''function''\<rparr>
      = Inr [''linear step function'']
   \<and> td_elements \<lparr>td_colspan = None, td_text = ''  ''\<rparr> = Inr []"
proof -
  let ?c1 = "\<lparr>td_colspan = None, td_text = '' translate(t)'' @ [CHR 0x0A]\<rparr>"
  let ?c2 = "\<lparr>td_colspan = None, td_text = ''linear step'' @ [CHR 0x0A] @ ''function''\<rparr>"
  let ?c3 = "\<lparr>td_colspan = None, td_text = ''  ''\<rparr>"
  have n: "td_colspan ?c1 = None" "td_colspan ?c2 = None" "td_colspan ?c3 = None"
    by simp_all
  have a: "list_all is_ascii (py_strip (td_text ?c1))"
    "list_all is_ascii (py_strip (td_text ?c2))"
    "list_all is_ascii (py_strip (td_text ?c3))"
    by (simp_all add: py_strip_def is_space_def is_ascii_def)
  have t1: "''translate(t)'' = replace_char CHR 0x0A CHR '' '' (py_strip (td_text ?c1))"
    by (simp add: py_strip_def is_space_def replace_char_def)
  have t2: "''linear step function'' = replace_char CHR 0x0A CHR '' '' (py_strip (td_text ?c2))"
    by (simp add: py_strip_def is_space_def replace_char_def)
  have t3: "[] = replace_char CHR 0x0A CHR '' '' (py_strip (td_text ?c3))"
    by (simp add: py_strip_def is_space_def replace_char_def)
  have "td_elements ?c1 = Inr [remove_char CHR '')'' ''translate'', remove_char CHR '')'' ''t)'']"
    using td_elements_rule [OF n(1) a(1) t1, of "''translate''" "''t)''"] by simp
  moreover have "td_elements ?c2 = Inr [''linear step function'']"
    using td_elements_rule [OF n(2) a(2) t2, of "[]" "[]"] by simp
  moreover have "td_elements ?c3 = Inr []"
    using td_elements_rule [OF n(3) a(3) t3, of "[]" "[]"] by simp
  ultimately show ?thesis by (simp add: remove_char_def)
qed

text \<open>
  C2 as stated fails twice. It keeps the name as it is and strips only a trailing \<^verbatim>\<open>)\<close> of
  the short name: the cell \<^verbatim>\<open>a)(b)\<close> would give \<^verbatim>\<open>a)\<close> and \<^verbatim>\<open>b\<close>, and the code gives
  \<^verbatim>\<open>a\<close> and \<^verbatim>\<open>b\<close>. It asks for no whitespace: the cell \<^verbatim>\<open>move<TAB>(m)\<close> holds a tab and
  would stay one element, and the code, which looks for the space character only,
  splits it.
\<close>

theorem td_elements_rule_counterexample:
  "td_elements \<lparr>td_colspan = None, td_text = ''a)(b)''\<rparr> = Inr [''a'', ''b'']
   \<and> td_elements \<lparr>td_colspan = None, td_text = ''a)(b)''\<rparr> \<noteq> Inr [''a)'', ''b'']
   \<and> td_elements \<lparr>td_colspan = None, td_text = ''move'' @ [CHR 0x09] @ ''(m)''\<rparr>
        = Inr [''move'' @ [CHR 0x09], ''m'']
   \<and> td_elements \<lparr>td_colspan = None, td_text = ''move'' @ [CHR 0x09] @ ''(m)''\<rparr>
        \<noteq> Inr [''move'' @ [CHR 0x09] @ ''(m)'']"
  by (simp add: td_elements_def py_str_def py_strip_def is_space_def is_ascii_def
      replace_char_def cell_elements_def remove_char_def)


section \<open>Selecting the table\<close>

lemma filter_first:
  assumes "i < length ts" and "P (ts ! i)" and "\<forall>j<i. \<not> P (ts ! j)"
  shows "filter P ts = ts ! i # filter P (drop (Suc i) ts)"
proof -
  have "\<forall>x\<in>set (take i ts). \<not> P x"
  proof
    fix x assume "x \<in> set (take i ts)"
    then obtain j where "j < length (take i ts)" and "take i ts ! j = x"
      by (auto simp: in_set_conv_nth)
    then show "\<not> P x" using assms by auto
  qed
  then have "filter P (take i ts) = []" by (simp add: filter_empty_conv)
  moreover have "ts = take i ts @ ts ! i # drop (Suc i) ts"
    using assms(1) by (simp add: id_take_nth_drop)
  ultimately have "filter P ts = filter P (ts ! i # drop (Suc i) ts)"
    by (metis filter_append append_Nil)
  then show ?thesis using assms(2) by simp
qed

lemma parse_flag_table_first:
  assumes "body_tables s = Some ts" and "i < length ts" and "is_signature_table (ts ! i)"
    and "\<forall>j<i. \<not> is_signature_table (ts ! j)"
  shows "parse_flag_table s =
     (case collect_cells (cells (ts ! i)) [] of
        Inl e \<Rightarrow> Inl e
      | Inr data \<Rightarrow> Inr (group_by_four data))"
  using assms(1) filter_first [OF assms(2,3,4)]
  by (simp add: parse_flag_table_def)

lemma parse_flag_table_no_match:
  assumes "body_tables s = Some ts" and "\<forall>t\<in>set ts. \<not> is_signature_table t"
  shows "parse_flag_table s = Inl IndexError"
proof -
  have "filter is_signature_table ts = []" using assms(2) by (simp add: filter_empty_conv)
  then show ?thesis using assms(1) by (simp add: parse_flag_table_def)
qed

lemma parse_flag_table_no_body:
  "body_tables s = None \<Longrightarrow> parse_flag_table s = Inl AttributeError"
  by (simp add: parse_flag_table_def)

lemma is_signature_table_iff:
  "is_signature_table t \<longleftrightarrow> (\<exists>a b. rows_markup t = a @ ''Long name (short name)'' @ b)"
  unfolding is_signature_table_def header_marker_def by (rule py_in_iff)

text \<open>
  C7. A table is selected when the markup of its rows contains the marker
  \<^verbatim>\<open>Long name (short name)\<close>. The parser takes the first such table of the body, in
  document order, and its result is computed from the cells of that table alone. When
  no table of the body is selected the parser fails with IndexError (the index
  \<^verbatim>\<open>[0]\<close> into an empty list), and when the page has no body it fails with
  AttributeError: an exception that nothing in the module catches.
\<close>

theorem parse_flag_table_selection:
  "(is_signature_table t \<longleftrightarrow> (\<exists>a b. rows_markup t = a @ ''Long name (short name)'' @ b))
   \<and> (body_tables s = Some ts \<and> i < length ts \<and> is_signature_table (ts ! i)
        \<and> (\<forall>j<i. \<not> is_signature_table (ts ! j))
      \<longrightarrow> parse_flag_table s =
            (case collect_cells (cells (ts ! i)) [] of
               Inl e \<Rightarrow> Inl e
             | Inr data \<Rightarrow> Inr (group_by_four data)))
   \<and> (body_tables s = Some ts \<and> (\<forall>t\<in>set ts. \<not> is_signature_table t)
      \<longrightarrow> parse_flag_table s = Inl IndexError)
   \<and> (body_tables s = None \<longrightarrow> parse_flag_table s = Inl AttributeError)"
  using is_signature_table_iff parse_flag_table_first parse_flag_table_no_match
    parse_flag_table_no_body
  by blast

lemma sig_simps:
  "is_signature_table t = py_in ''Long name (short name)'' (rows_markup t)"
  by (simp add: is_signature_table_def header_marker_def)

text \<open>
  A page with three tables, of which the second and the third carry the marker: the
  second is parsed. A page whose only table has no marker: IndexError.
\<close>

theorem parse_flag_table_selection_witness:
  "parse_flag_table \<lparr>body_tables = Some
      [\<lparr>rows_markup = ''[<tr><td>Synopsis</td></tr>]'',
        cells = [\<lparr>td_colspan = None, td_text = ''Synopsis''\<rparr>]\<rparr>,
       \<lparr>rows_markup = ''[<tr><th>Long name (short name)</th></tr>, <tr><td>x</td></tr>]'',
        cells = [\<lparr>td_colspan = None, td_text = ''translate(t)''\<rparr>,
                 \<lparr>td_colspan = None, td_text = ''distance''\<rparr>,
                 \<lparr>td_colspan = Some ''3'', td_text = ''Properties''\<rparr>,
                 \<lparr>td_colspan = None, td_text = ''linear distance value''\<rparr>]\<rparr>,
       \<lparr>rows_markup = ''[<tr><th>Long name (short name)</th></tr>]'',
        cells = [\<lparr>td_colspan = None, td_text = ''other''\<rparr>]\<rparr>]\<rparr>
     = Inr [[''translate'', ''t'', ''distance'', ''linear distance value'']]
   \<and> parse_flag_table \<lparr>body_tables = Some
      [\<lparr>rows_markup = ''[<tr><td>Synopsis</td></tr>]'',
        cells = [\<lparr>td_colspan = None, td_text = ''Synopsis''\<rparr>]\<rparr>]\<rparr>
     = Inl IndexError"
proof -
  let ?t0 = "\<lparr>rows_markup = ''[<tr><td>Synopsis</td></tr>]'',
        cells = [\<lparr>td_colspan = None, td_text = ''Synopsis''\<rparr>]\<rparr>"
  let ?t1 = "\<lparr>rows_markup = ''[<tr><th>Long name (short name)</th></tr>, <tr><td>x</td></tr>]'',
        cells = [\<lparr>td_colspan = None, td_text = ''translate(t)''\<rparr>,
                 \<lparr>td_colspan = None, td_text = ''distance''\<rparr>,
                 \<lparr>td_colspan = Some ''3'', td_text = ''Properties''\<rparr>,
                 \<lparr>td_colspan = None, td_text = ''linear distance value''\<rparr>]\<rparr>"
  let ?t2 = "\<lparr>rows_markup = ''[<tr><th>Long name (short name)</th></tr>]'',
        cells = [\<lparr>td_colspan = None, td_text = ''other''\<rparr>]\<rparr>"
  let ?s = "\<lparr>body_tables = Some [?t0, ?t1, ?t2]\<rparr>"
  let ?s' = "\<lparr>body_tables = Some [?t0]\<rparr>"
  have m0: "\<not> is_signature_table ?t0" by (simp add: sig_simps)
  have m1: "is_signature_table ?t1" by (simp add: sig_simps)
  have c: "collect_cells (cells ?t1) [] = Inr [''translate'', ''t'', ''distance'', ''linear distance value'']"
    by (simp add: td_elements_def py_str_def py_strip_def is_space_def is_ascii_def
      replace_char_def cell_elements_def remove_char_def)
  have g: "group_by_four [''translate'', ''t'', ''distance'', ''linear distance value'']
      = [[''translate'', ''t'', ''distance'', ''linear distance value'']]"
    by (simp add: group_by_four_def py_slice_def py_range.simps)
  have "parse_flag_table ?s = Inr [[''translate'', ''t'', ''distance'', ''linear distance value'']]"
    using parse_flag_table_selection [of ?t1 ?s "[?t0, ?t1, ?t2]" 1] m0 m1 c g
    by simp
  moreover have "parse_flag_table ?s' = Inl IndexError"
    using parse_flag_table_selection [of ?t0 ?s' "[?t0]" 0] m0 by simp
  ultimately show ?thesis by simp
qed


section \<open>Compiling the groups\<close>

lemma dict_set_map_of: "map_of (dict_set k v d) = (map_of d)(k \<mapsto> v)"
  by (simp add: dict_set_def update_conv')

lemma dict_set_keys: "fst ` set (dict_set k v d) = insert k (fst ` set d)"
  by (simp add: dict_set_def dom_update)

lemma dict_set_distinct: "distinct (map fst d) \<Longrightarrow> distinct (map fst (dict_set k v d))"
  by (simp add: dict_set_def distinct_update)

lemma compile_loop_fold:
  "compile_loop (map (\<lambda>(name, sh, ty, descr). [name, sh, ty, descr]) ts) flags =
     Inr (fold (\<lambda>(name, sh, ty, descr).
            dict_set name \<lparr>short = sh, data_type = ty, description = descr\<rparr>) ts flags)"
proof (induction ts arbitrary: flags)
  case Nil
  show ?case by simp
next
  case (Cons x ts)
  obtain n s t d where x: "x = (n, s, t, d)" by (cases x) auto
  show ?case unfolding x using Cons.IH by simp
qed

lemma fold_set_distinct:
  "distinct (map fst (fold (\<lambda>(name, sh, ty, descr).
       dict_set name \<lparr>short = sh, data_type = ty, description = descr\<rparr>) ts []))"
proof (induction ts rule: rev_induct)
  case Nil
  show ?case by simp
next
  case (snoc x ts)
  obtain n s t d where x: "x = (n, s, t, d)" by (cases x) auto
  show ?case unfolding x using snoc by (simp add: dict_set_distinct)
qed

lemma fold_set_keys:
  "fst ` set (fold (\<lambda>(name, sh, ty, descr).
       dict_set name \<lparr>short = sh, data_type = ty, description = descr\<rparr>) ts [])
     = fst ` set ts"
proof (induction ts rule: rev_induct)
  case Nil
  show ?case by simp
next
  case (snoc x ts)
  obtain n s t d where x: "x = (n, s, t, d)" by (cases x) auto
  show ?case unfolding x using snoc by (simp add: dict_set_keys)
qed

lemma fold_set_last_wins:
  assumes "i < length ts" and "ts ! i = (name, sh, ty, descr)"
    and "\<forall>j. i < j \<and> j < length ts \<longrightarrow> fst (ts ! j) \<noteq> name"
  shows "map_of (fold (\<lambda>(name, sh, ty, descr).
       dict_set name \<lparr>short = sh, data_type = ty, description = descr\<rparr>) ts []) name
     = Some \<lparr>short = sh, data_type = ty, description = descr\<rparr>"
  using assms
proof (induction ts rule: rev_induct)
  case Nil
  then show ?case by simp
next
  case (snoc x ts)
  obtain n s t d where x: "x = (n, s, t, d)" by (cases x) auto
  show ?case
  proof (cases "i = length ts")
    case True
    then have "(name, sh, ty, descr) = (n, s, t, d)" using snoc.prems(2) x by simp
    then show ?thesis unfolding x by (simp add: dict_set_map_of)
  next
    case False
    then have il: "i < length ts" using snoc.prems(1) by simp
    then have e: "ts ! i = (name, sh, ty, descr)" using snoc.prems(2) by (simp add: nth_append)
    have "i < length ts \<and> length ts < length (ts @ [x])" using il by simp
    then have "fst ((ts @ [x]) ! length ts) \<noteq> name" using snoc.prems(3) by blast
    then have ne: "n \<noteq> name" by (simp add: x)
    have later: "\<forall>j. i < j \<and> j < length ts \<longrightarrow> fst (ts ! j) \<noteq> name"
    proof (intro allI impI)
      fix j assume j: "i < j \<and> j < length ts"
      then have "i < j \<and> j < length (ts @ [x])" by simp
      then have "fst ((ts @ [x]) ! j) \<noteq> name" using snoc.prems(3) by blast
      then show "fst (ts ! j) \<noteq> name" using j by (simp add: nth_append)
    qed
    show ?thesis unfolding x using snoc.IH [OF il e later] ne by (simp add: dict_set_map_of)
  qed
qed

text \<open>
  C6. On a sequence of 4-tuples (name, short, data type, description),
  \<^verbatim>\<open>_compile_flag_table\<close> returns a dictionary with one entry per key whose keys are
  exactly the names of the sequence, and each name is mapped to the short name, data
  type and description of its last occurrence, stored as they stand.
\<close>

theorem compile_flag_table_last_wins:
  fixes ts :: "(string \<times> string \<times> string \<times> string) list"
  shows "\<exists>flags.
       compile_flag_table (map (\<lambda>(name, sh, ty, descr). [name, sh, ty, descr]) ts) = Inr flags
     \<and> distinct (map fst flags)
     \<and> fst ` set flags = fst ` set ts
     \<and> (\<forall>i<length ts. \<forall>name sh ty descr.
           ts ! i = (name, sh, ty, descr) \<and> (\<forall>j. i < j \<and> j < length ts \<longrightarrow> fst (ts ! j) \<noteq> name)
           \<longrightarrow> map_of flags name = Some \<lparr>short = sh, data_type = ty, description = descr\<rparr>)"
proof (intro exI conjI allI impI)
  show "compile_flag_table (map (\<lambda>(name, sh, ty, descr). [name, sh, ty, descr]) ts) =
     Inr (fold (\<lambda>(name, sh, ty, descr).
            dict_set name \<lparr>short = sh, data_type = ty, description = descr\<rparr>) ts [])"
    unfolding compile_flag_table_def by (rule compile_loop_fold)
  show "distinct (map fst (fold (\<lambda>(name, sh, ty, descr).
       dict_set name \<lparr>short = sh, data_type = ty, description = descr\<rparr>) ts []))"
    by (rule fold_set_distinct)
  show "fst ` set (fold (\<lambda>(name, sh, ty, descr).
       dict_set name \<lparr>short = sh, data_type = ty, description = descr\<rparr>) ts [])
     = fst ` set ts"
    by (rule fold_set_keys)
next
  fix i name sh ty descr
  assume "i < length ts"
    and "ts ! i = (name, sh, ty, descr) \<and> (\<forall>j. i < j \<and> j < length ts \<longrightarrow> fst (ts ! j) \<noteq> name)"
  then show "map_of (fold (\<lambda>(name, sh, ty, descr).
       dict_set name \<lparr>short = sh, data_type = ty, description = descr\<rparr>) ts []) name
     = Some \<lparr>short = sh, data_type = ty, description = descr\<rparr>"
    using fold_set_last_wins [of i ts name sh ty descr] by blast
qed

text \<open>
  Three tuples, the first and the third both named \<^verbatim>\<open>translate\<close>: the keys are the two
  names and \<^verbatim>\<open>translate\<close> carries the fields of the third tuple.
\<close>

theorem compile_flag_table_last_wins_witness:
  "\<exists>flags.
     compile_flag_table
       [[''translate'', ''t'', ''distance'', ''linear distance value''],
        [''rotate'', ''r'', ''angle'', ''angle of rotation''],
        [''translate'', ''tr'', ''float'', ''second entry'']] = Inr flags
     \<and> fst ` set flags = {''translate'', ''rotate''}
     \<and> map_of flags ''translate''
          = Some \<lparr>short = ''tr'', data_type = ''float'', description = ''second entry''\<rparr>
     \<and> map_of flags ''rotate''
          = Some \<lparr>short = ''r'', data_type = ''angle'', description = ''angle of rotation''\<rparr>"
proof -
  let ?ts = "[(''translate'', ''t'', ''distance'', ''linear distance value''),
        (''rotate'', ''r'', ''angle'', ''angle of rotation''),
        (''translate'', ''tr'', ''float'', ''second entry'')]"
  from compile_flag_table_last_wins [of ?ts] obtain flags where
    a: "compile_flag_table (map (\<lambda>(name, sh, ty, descr). [name, sh, ty, descr]) ?ts) = Inr flags
     \<and> distinct (map fst flags)
     \<and> fst ` set flags = fst ` set ?ts
     \<and> (\<forall>i<length ?ts. \<forall>name sh ty descr.
           ?ts ! i = (name, sh, ty, descr) \<and> (\<forall>j. i < j \<and> j < length ?ts \<longrightarrow> fst (?ts ! j) \<noteq> name)
           \<longrightarrow> map_of flags name = Some \<lparr>short = sh, data_type = ty, description = descr\<rparr>)" ..
  from a have c: "compile_flag_table
       [[''translate'', ''t'', ''distance'', ''linear distance value''],
        [''rotate'', ''r'', ''angle'', ''angle of rotation''],
        [''translate'', ''tr'', ''float'', ''second entry'']] = Inr flags"
    by simp
  from a have ks: "fst ` set flags = {''translate'', ''rotate''}"
    by (simp add: insert_commute)
  note lw = a [THEN conjunct2, THEN conjunct2, THEN conjunct2, rule_format]
  have len: "length ?ts = 3" by simp
  have l2: "\<forall>j. 2 < j \<and> j < length ?ts \<longrightarrow> fst (?ts ! j) \<noteq> ''translate''"
    unfolding len by auto
  have t: "map_of flags ''translate''
      = Some \<lparr>short = ''tr'', data_type = ''float'', description = ''second entry''\<rparr>"
  proof (rule lw [of 2])
    show "2 < length ?ts" by simp
    show "?ts ! 2 = (''translate'', ''tr'', ''float'', ''second entry'')
        \<and> (\<forall>j. 2 < j \<and> j < length ?ts \<longrightarrow> fst (?ts ! j) \<noteq> ''translate'')"
      using l2 by simp
  qed
  have j2: "\<And>j::nat. 1 < j \<and> j < 3 \<Longrightarrow> j = 2" by arith
  have l1: "\<forall>j. 1 < j \<and> j < length ?ts \<longrightarrow> fst (?ts ! j) \<noteq> ''rotate''"
  proof (intro allI impI)
    fix j :: nat assume "1 < j \<and> j < length ?ts"
    then have "j = 2" using j2 unfolding len by blast
    then show "fst (?ts ! j) \<noteq> ''rotate''" by simp
  qed
  have r: "map_of flags ''rotate''
      = Some \<lparr>short = ''r'', data_type = ''angle'', description = ''angle of rotation''\<rparr>"
  proof (rule lw [of 1])
    show "1 < length ?ts" by simp
    show "?ts ! 1 = (''rotate'', ''r'', ''angle'', ''angle of rotation'')
        \<and> (\<forall>j. 1 < j \<and> j < length ?ts \<longrightarrow> fst (?ts ! j) \<noteq> ''rotate'')"
      using l1 by simp
  qed
  show ?thesis
  proof (intro exI conjI)
    show "compile_flag_table
       [[''translate'', ''t'', ''distance'', ''linear distance value''],
        [''rotate'', ''r'', ''angle'', ''angle of rotation''],
        [''translate'', ''tr'', ''float'', ''second entry'']] = Inr flags" by (rule c)
  qed (rule ks t r)+
qed


section \<open>Groups that are not fours\<close>

lemma compile_loop_bad_head:
  "length g \<noteq> 4 \<Longrightarrow> compile_loop (g # rest) flags = Inl ValueError"
  by (auto split: list.splits)

lemma length_four:
  "length g = 4 \<Longrightarrow> \<exists>a b c d. g = [a, b, c, d]"
  by (auto simp: length_Suc_conv numeral_eq_Suc)

lemma compile_loop_bad_group:
  "\<exists>g\<in>set gs. length g \<noteq> 4 \<Longrightarrow> compile_loop gs flags = Inl ValueError"
proof (induction gs arbitrary: flags)
  case Nil
  then show ?case by simp
next
  case (Cons g gs)
  show ?case
  proof (cases "length g = 4")
    case True
    then obtain a b c d where g: "g = [a, b, c, d]" using length_four by blast
    have "\<exists>g\<in>set gs. length g \<noteq> 4" using Cons.prems True by auto
    then show ?thesis using Cons.IH g by simp
  next
    case False
    then show ?thesis by (rule compile_loop_bad_head)
  qed
qed

lemma concat_fours: "\<forall>g\<in>set gs. length g = 4 \<Longrightarrow> length (concat gs) = 4 * length gs"
  by (induction gs) auto

lemma group_by_four_ragged:
  assumes "length data mod 4 \<noteq> 0"
  shows "\<exists>g\<in>set (group_by_four data). length g \<noteq> 4"
proof (rule ccontr)
  assume "\<not> (\<exists>g\<in>set (group_by_four data). length g \<noteq> 4)"
  then have "length (concat (group_by_four data)) = 4 * length (group_by_four data)"
    by (intro concat_fours) simp
  then have "length data = 4 * length (group_by_four data)"
    by (simp add: group_by_four_concat)
  then show False using assms by simp
qed

text \<open>
  C5. A group list that holds a group whose length is not four makes
  \<^verbatim>\<open>_compile_flag_table\<close> fail with ValueError, at the unpacking of line 214. The groups
  the parser cuts from an element list whose length is not a multiple of four are such a
  list, so parsing and then compiling such a page raises ValueError instead of
  returning a truncated record.
\<close>

theorem compile_flag_table_ragged:
  "((\<exists>g\<in>set flag_data_set. length g \<noteq> 4)
      \<longrightarrow> compile_flag_table flag_data_set = Inl ValueError)
   \<and> (length data mod 4 \<noteq> 0 \<longrightarrow> compile_flag_table (group_by_four data) = Inl ValueError)
   \<and> (parse_flag_table soup_data = Inr flag_data_set \<and> (\<exists>g\<in>set flag_data_set. length g \<noteq> 4)
      \<longrightarrow> parse_then_compile soup_data = Inl ValueError)"
proof -
  have a: "\<And>gs. (\<exists>g\<in>set gs. length g \<noteq> 4) \<longrightarrow> compile_flag_table gs = Inl ValueError"
    by (simp add: compile_flag_table_def compile_loop_bad_group)
  have "length data mod 4 \<noteq> 0 \<longrightarrow> compile_flag_table (group_by_four data) = Inl ValueError"
    using a group_by_four_ragged by blast
  moreover have "parse_flag_table soup_data = Inr flag_data_set
      \<and> (\<exists>g\<in>set flag_data_set. length g \<noteq> 4)
      \<longrightarrow> parse_then_compile soup_data = Inl ValueError"
    using a by (auto simp: parse_then_compile_def)
  ultimately show ?thesis using a by blast
qed

text \<open>
  A page whose table yields seven elements: the parser returns a group of four and a
  group of three, and parsing then compiling raises ValueError.
\<close>

theorem compile_flag_table_ragged_witness:
  "parse_flag_table \<lparr>body_tables = Some
      [\<lparr>rows_markup = ''[<tr><th>Long name (short name)</th></tr>]'',
        cells = [\<lparr>td_colspan = None, td_text = ''translate(t)''\<rparr>,
                 \<lparr>td_colspan = None, td_text = ''distance''\<rparr>,
                 \<lparr>td_colspan = None, td_text = ''linear distance value''\<rparr>,
                 \<lparr>td_colspan = None, td_text = ''rotate(r)''\<rparr>,
                 \<lparr>td_colspan = None, td_text = ''angle''\<rparr>]\<rparr>]\<rparr>
     = Inr [[''translate'', ''t'', ''distance'', ''linear distance value''],
            [''rotate'', ''r'', ''angle'']]
   \<and> parse_then_compile \<lparr>body_tables = Some
      [\<lparr>rows_markup = ''[<tr><th>Long name (short name)</th></tr>]'',
        cells = [\<lparr>td_colspan = None, td_text = ''translate(t)''\<rparr>,
                 \<lparr>td_colspan = None, td_text = ''distance''\<rparr>,
                 \<lparr>td_colspan = None, td_text = ''linear distance value''\<rparr>,
                 \<lparr>td_colspan = None, td_text = ''rotate(r)''\<rparr>,
                 \<lparr>td_colspan = None, td_text = ''angle''\<rparr>]\<rparr>]\<rparr>
     = Inl ValueError"
proof -
  let ?s = "\<lparr>body_tables = Some
      [\<lparr>rows_markup = ''[<tr><th>Long name (short name)</th></tr>]'',
        cells = [\<lparr>td_colspan = None, td_text = ''translate(t)''\<rparr>,
                 \<lparr>td_colspan = None, td_text = ''distance''\<rparr>,
                 \<lparr>td_colspan = None, td_text = ''linear distance value''\<rparr>,
                 \<lparr>td_colspan = None, td_text = ''rotate(r)''\<rparr>,
                 \<lparr>td_colspan = None, td_text = ''angle''\<rparr>]\<rparr>]\<rparr>"
  let ?gs = "[[''translate'', ''t'', ''distance'', ''linear distance value''],
            [''rotate'', ''r'', ''angle'']]"
  have p: "parse_flag_table ?s = Inr ?gs"
    by (simp add: parse_flag_table_def is_signature_table_def header_marker_def
      td_elements_def py_str_def py_strip_def is_space_def is_ascii_def
      replace_char_def cell_elements_def remove_char_def
      group_by_four_def py_slice_def py_range.simps)
  have "parse_then_compile ?s = Inl ValueError"
    using compile_flag_table_ragged [of ?gs "[]" ?s] p by simp
  then show ?thesis using p by simp
qed


section \<open>The memoized fetch\<close>

lemma dict_contains_set: "dict_contains (dict_set k v d) k"
  by (simp add: dict_contains_def dict_set_map_of)

lemma dict_get_set: "dict_get (dict_set k v d) k = Inr v"
  by (simp add: dict_get_def dict_set_map_of)

lemma dict_get_contains:
  "dict_contains d k \<Longrightarrow> \<exists>v. map_of d k = Some v \<and> dict_get d k = Inr v"
  by (auto simp: dict_contains_def dict_get_def)

lemma scrape_command_hit:
  assumes "dict_contains (cache st) url"
  shows "\<exists>v. map_of (cache st) url = Some v \<and> scrape_command web url st = (Inr v, st)"
  using dict_get_contains [OF assms] assms
  by (auto simp: scrape_command_def key_memoized_def)

lemma scrape_command_body_requests:
  "scrape_command_body web url st = (r, st') \<Longrightarrow>
     st' = st\<lparr>requests := requests st @ [url]\<rparr>"
  by (auto simp: scrape_command_body_def Let_def split: sum.splits)

lemma scrape_command_miss:
  assumes "\<not> dict_contains (cache st) url"
    and "scrape_command_body web url st = (Inr v, st')"
  shows "scrape_command web url st = (Inr v, st'\<lparr>cache := dict_set url v (cache st')\<rparr>)"
  using assms by (simp add: scrape_command_def key_memoized_def)

lemma scrape_command_Inr:
  assumes "scrape_command web url st = (Inr v, st1)"
  shows "dict_contains (cache st1) url \<and> dict_get (cache st1) url = Inr v
     \<and> requests st1 = requests st @ (if dict_contains (cache st) url then [] else [url])"
proof (cases "dict_contains (cache st) url")
  case True
  then show ?thesis using assms by (auto simp: scrape_command_def key_memoized_def)
next
  case False
  obtain r st' where b: "scrape_command_body web url st = (r, st')"
    by (cases "scrape_command_body web url st") auto
  then have r: "r = Inr v" and st1: "st1 = st'\<lparr>cache := dict_set url v (cache st')\<rparr>"
    using assms False by (auto simp: scrape_command_def key_memoized_def split: sum.splits)
  have "st' = st\<lparr>requests := requests st @ [url]\<rparr>"
    using b by (rule scrape_command_body_requests)
  then show ?thesis using False st1 by (simp add: dict_contains_set dict_get_set)
qed

lemma scrape_command_again:
  assumes "scrape_command web url st = (Inr v, st1)"
  shows "scrape_command web url st1 = (Inr v, st1)"
  using scrape_command_Inr [OF assms] by (simp add: scrape_command_def key_memoized_def)

text \<open>
  C1. A call of the memoized \<^verbatim>\<open>scrape_command\<close> with a key that is in the cache
  returns the stored value and leaves the whole state as it was: no request is made
  and the cache is unchanged. With a key that is not in the cache it runs the function
  under the decorator (one request), stores the result under the key and returns it.
  So when a call returns \<open>v\<close>, the next call with the same key returns \<open>v\<close> again without
  touching the state, the two calls together have made one request when the key was
  absent before the first and none when it was present, and the loop of
  \<^verbatim>\<open>_store_commands\<close> over the same command twice does what one memoized call does,
  storing its value twice.
\<close>

theorem scrape_command_memoized:
  "(dict_contains (cache st) url \<longrightarrow>
      (\<exists>v. map_of (cache st) url = Some v \<and> scrape_command web url st = (Inr v, st)))
   \<and> (\<not> dict_contains (cache st) url \<and> scrape_command_body web url st = (Inr v, st') \<longrightarrow>
        scrape_command web url st = (Inr v, st'\<lparr>cache := dict_set url v (cache st')\<rparr>)
        \<and> st' = st\<lparr>requests := requests st @ [url]\<rparr>)
   \<and> (scrape_command web url st = (Inr v, st1) \<longrightarrow>
        scrape_command web url st1 = (Inr v, st1)
        \<and> requests st1 = requests st @ (if dict_contains (cache st) url then [] else [url]))
   \<and> store_commands web maya_version [command, command] st =
       (case scrape_command web (build_url maya_version command) st of
          (Inl e, st2) \<Rightarrow> (Inl e, st2)
        | (Inr sig, st2) \<Rightarrow>
            (Inr (), st2\<lparr>command_signatures :=
               dict_set command sig (dict_set command sig (command_signatures st2))\<rparr>))"
proof (intro conjI impI)
  assume "dict_contains (cache st) url"
  then show "\<exists>v. map_of (cache st) url = Some v \<and> scrape_command web url st = (Inr v, st)"
    by (rule scrape_command_hit)
next
  assume h: "\<not> dict_contains (cache st) url \<and> scrape_command_body web url st = (Inr v, st')"
  then show "scrape_command web url st = (Inr v, st'\<lparr>cache := dict_set url v (cache st')\<rparr>)"
    by (simp add: scrape_command_miss)
  from h show "st' = st\<lparr>requests := requests st @ [url]\<rparr>"
    using scrape_command_body_requests by blast
next
  assume h: "scrape_command web url st = (Inr v, st1)"
  then show "scrape_command web url st1 = (Inr v, st1)" by (rule scrape_command_again)
  from h show "requests st1 = requests st @ (if dict_contains (cache st) url then [] else [url])"
    using scrape_command_Inr by blast
next
  show "store_commands web maya_version [command, command] st =
            (case scrape_command web (build_url maya_version command) st of
               (Inl e, st2) \<Rightarrow> (Inl e, st2)
             | (Inr sig, st2) \<Rightarrow>
                 (Inr (), st2\<lparr>command_signatures :=
                    dict_set command sig (dict_set command sig (command_signatures st2))\<rparr>))"
  proof (cases "scrape_command web (build_url maya_version command) st")
    case (Pair r st2)
    show ?thesis
    proof (cases r)
      case (Inl e)
      then show ?thesis using Pair by simp
    next
      case (Inr sig)
      let ?st3 = "st2\<lparr>command_signatures := dict_set command sig (command_signatures st2)\<rparr>"
      have "scrape_command web (build_url maya_version command) st = (Inr sig, st2)"
        using Pair Inr by simp
      then have "dict_contains (cache st2) (build_url maya_version command)
          \<and> dict_get (cache st2) (build_url maya_version command) = Inr sig"
        using scrape_command_Inr by blast
      then have "scrape_command web (build_url maya_version command) ?st3 = (Inr sig, ?st3)"
        by (simp add: scrape_command_def key_memoized_def)
      then show ?thesis using Pair Inr by simp
    qed
  qed
qed

text \<open>
  An empty cache and a page with one flag: the first call requests the page and stores
  the signature, the second returns it from the cache and changes nothing.
\<close>

theorem scrape_command_memoized_witness:
  "scrape_command
     (\<lambda>url. Inr \<lparr>body_tables = Some
        [\<lparr>rows_markup = ''[<tr><th>Long name (short name)</th></tr>]'',
          cells = [\<lparr>td_colspan = None, td_text = ''translate(t)''\<rparr>,
                   \<lparr>td_colspan = None, td_text = ''distance''\<rparr>,
                   \<lparr>td_colspan = None, td_text = ''linear distance value''\<rparr>]\<rparr>]\<rparr>)
     ''move.html''
     \<lparr>cache = [], command_signatures = [], cache_file = None, temp_files = [], requests = []\<rparr>
   = (Inr [(''translate'',
        \<lparr>short = ''t'', data_type = ''distance'', description = ''linear distance value''\<rparr>)],
      \<lparr>cache = [(''move.html'', [(''translate'',
          \<lparr>short = ''t'', data_type = ''distance'', description = ''linear distance value''\<rparr>)])],
       command_signatures = [], cache_file = None, temp_files = [],
       requests = [''move.html'']\<rparr>)
   \<and> scrape_command
     (\<lambda>url. Inr \<lparr>body_tables = Some
        [\<lparr>rows_markup = ''[<tr><th>Long name (short name)</th></tr>]'',
          cells = [\<lparr>td_colspan = None, td_text = ''translate(t)''\<rparr>,
                   \<lparr>td_colspan = None, td_text = ''distance''\<rparr>,
                   \<lparr>td_colspan = None, td_text = ''linear distance value''\<rparr>]\<rparr>]\<rparr>)
     ''move.html''
     \<lparr>cache = [(''move.html'', [(''translate'',
          \<lparr>short = ''t'', data_type = ''distance'', description = ''linear distance value''\<rparr>)])],
       command_signatures = [], cache_file = None, temp_files = [],
       requests = [''move.html'']\<rparr>
   = (Inr [(''translate'',
        \<lparr>short = ''t'', data_type = ''distance'', description = ''linear distance value''\<rparr>)],
      \<lparr>cache = [(''move.html'', [(''translate'',
          \<lparr>short = ''t'', data_type = ''distance'', description = ''linear distance value''\<rparr>)])],
       command_signatures = [], cache_file = None, temp_files = [],
       requests = [''move.html'']\<rparr>)"
proof -
  let ?web = "\<lambda>url :: string. (Inr \<lparr>body_tables = Some
        [\<lparr>rows_markup = ''[<tr><th>Long name (short name)</th></tr>]'',
          cells = [\<lparr>td_colspan = None, td_text = ''translate(t)''\<rparr>,
                   \<lparr>td_colspan = None, td_text = ''distance''\<rparr>,
                   \<lparr>td_colspan = None, td_text = ''linear distance value''\<rparr>]\<rparr>]\<rparr>
        :: py_error + soup)"
  let ?sig = "[(''translate'',
        \<lparr>short = ''t'', data_type = ''distance'', description = ''linear distance value''\<rparr>)]"
  let ?s0 = "\<lparr>cache = [], command_signatures = [], cache_file = None, temp_files = [],
      requests = []\<rparr>"
  let ?s' = "\<lparr>cache = [], command_signatures = [], cache_file = None, temp_files = [],
      requests = [''move.html'']\<rparr>"
  let ?s1 = "\<lparr>cache = [(''move.html'', ?sig)], command_signatures = [], cache_file = None,
      temp_files = [], requests = [''move.html'']\<rparr>"
  have miss: "\<not> dict_contains (cache ?s0) ''move.html''"
    by (simp add: dict_contains_def)
  have body: "scrape_command_body ?web ''move.html'' ?s0 = (Inr ?sig, ?s')"
    by (simp add: scrape_command_body_def parse_then_compile_def
      parse_flag_table_def is_signature_table_def header_marker_def
      td_elements_def py_str_def py_strip_def is_space_def is_ascii_def
      replace_char_def cell_elements_def remove_char_def
      group_by_four_def py_slice_def py_range.simps
      compile_flag_table_def dict_set_def)
  have first: "scrape_command ?web ''move.html'' ?s0 = (Inr ?sig, ?s1)"
    using scrape_command_memoized
      [where st = ?s0 and url = "''move.html''" and web = ?web and v = ?sig and st' = ?s']
      miss body
    by (simp add: dict_set_def)
  have "scrape_command ?web ''move.html'' ?s1 = (Inr ?sig, ?s1)"
    using scrape_command_memoized
      [where st = ?s0 and url = "''move.html''" and web = ?web and v = ?sig and ?st1.0 = ?s1]
      first
    by simp
  then show ?thesis using first by simp
qed



section \<open>Loading, saving and resetting the cache file\<close>

text \<open>
  C3, as amended. \<^verbatim>\<open>_read_tempfile\<close> never raises. When the cache file can be opened
  and its contents decode, the in-memory cache becomes the decoded dictionary, whatever
  it held before; when the contents do not decode (ValueError) it becomes the empty
  dictionary; when the file cannot be opened (IOError) the in-memory cache is left as it
  was.
\<close>

theorem read_tempfile_load:
  "(cache_file st = Some contents \<and> json_load contents = Some d \<longrightarrow>
      read_tempfile json_load st = (Inr (), st\<lparr>cache := d\<rparr>))
   \<and> (cache_file st = Some contents \<and> json_load contents = None \<longrightarrow>
      read_tempfile json_load st = (Inr (), st\<lparr>cache := []\<rparr>))
   \<and> (cache_file st = None \<longrightarrow> read_tempfile json_load st = (Inr (), st))"
  by (simp add: read_tempfile_def open_read_def)

text \<open>
  A cache with one entry, loaded from a file that decodes to the empty dictionary, from
  a file that decodes to another entry, from an empty file, and with no file.
\<close>

theorem read_tempfile_load_witness:
  "read_tempfile (\<lambda>s. if s = ''{}'' then Some [] else None)
     \<lparr>cache = [(''move.html'', [])], command_signatures = [], cache_file = Some ''{}'',
      temp_files = [], requests = []\<rparr>
   = (Inr (), \<lparr>cache = [], command_signatures = [], cache_file = Some ''{}'',
      temp_files = [], requests = []\<rparr>)
   \<and> read_tempfile (\<lambda>s. if s = ''{}'' then Some [(''rotate.html'', [])] else None)
     \<lparr>cache = [(''move.html'', [])], command_signatures = [], cache_file = Some ''{}'',
      temp_files = [], requests = []\<rparr>
   = (Inr (), \<lparr>cache = [(''rotate.html'', [])], command_signatures = [], cache_file = Some ''{}'',
      temp_files = [], requests = []\<rparr>)
   \<and> read_tempfile (\<lambda>s. if s = ''{}'' then Some [] else None)
     \<lparr>cache = [(''move.html'', [])], command_signatures = [], cache_file = Some '''',
      temp_files = [], requests = []\<rparr>
   = (Inr (), \<lparr>cache = [], command_signatures = [], cache_file = Some '''',
      temp_files = [], requests = []\<rparr>)
   \<and> read_tempfile (\<lambda>s. if s = ''{}'' then Some [] else None)
     \<lparr>cache = [(''move.html'', [])], command_signatures = [], cache_file = None,
      temp_files = [], requests = []\<rparr>
   = (Inr (), \<lparr>cache = [(''move.html'', [])], command_signatures = [], cache_file = None,
      temp_files = [], requests = []\<rparr>)"
  using
    read_tempfile_load [where st = "\<lparr>cache = [(''move.html'', [])], command_signatures = [],
      cache_file = Some ''{}'', temp_files = [], requests = []\<rparr>"
      and contents = "''{}''" and d = "[]"
      and json_load = "\<lambda>s. if s = ''{}'' then Some [] else None"]
    read_tempfile_load [where st = "\<lparr>cache = [(''move.html'', [])], command_signatures = [],
      cache_file = Some ''{}'', temp_files = [], requests = []\<rparr>"
      and contents = "''{}''" and d = "[(''rotate.html'', [])]"
      and json_load = "\<lambda>s. if s = ''{}'' then Some [(''rotate.html'', [])] else None"]
    read_tempfile_load [where st = "\<lparr>cache = [(''move.html'', [])], command_signatures = [],
      cache_file = Some '''', temp_files = [], requests = []\<rparr>"
      and contents = "''''"
      and json_load = "\<lambda>s. if s = ''{}'' then Some [] else None"]
    read_tempfile_load [where st = "\<lparr>cache = [(''move.html'', [])], command_signatures = [],
      cache_file = None, temp_files = [], requests = []\<rparr>"
      and json_load = "\<lambda>s. if s = ''{}'' then Some [] else None"]
  by simp

text \<open>
  C3 as stated says that an absent file leaves an empty in-memory cache, for every prior
  cache. With one entry in the cache and no file, the entry is still there after the
  load.
\<close>

theorem read_tempfile_load_counterexample:
  "cache (snd (read_tempfile (\<lambda>s. if s = ''{}'' then Some [] else None)
     \<lparr>cache = [(''move.html'', [])], command_signatures = [], cache_file = None,
      temp_files = [], requests = []\<rparr>)) = [(''move.html'', [])]
   \<and> cache (snd (read_tempfile (\<lambda>s. if s = ''{}'' then Some [] else None)
     \<lparr>cache = [(''move.html'', [])], command_signatures = [], cache_file = None,
      temp_files = [], requests = []\<rparr>)) \<noteq> []"
  by (simp add: read_tempfile_def open_read_def)

text \<open>
  C8, as amended. \<^verbatim>\<open>_write_tempfile\<close> serializes the whole in-memory cache with
  \<^verbatim>\<open>json.dumps(..., ensure_ascii=False, indent=4, sort_keys=True)\<close>, writes the text to
  a new temporary file, which stays on disk, and copies that file over the cache
  file. On return the cache file holds exactly the serialization. The copy is not an
  atomic replacement: the cache file keeps its previous contents while the temporary
  file is written, is then truncated to empty, and only then receives the new text.
\<close>

theorem write_tempfile_copy:
  "write_tempfile json_dumps st =
     (Inr (), st\<lparr>cache_file :=
                  Some (json_dumps \<lparr>ensure_ascii = False, indent = Some 4, sort_keys = True\<rparr>
                          (cache st)),
                temp_files := temp_files st @
                  [json_dumps \<lparr>ensure_ascii = False, indent = Some 4, sort_keys = True\<rparr>
                     (cache st)]\<rparr>)
   \<and> map cache_file (write_tempfile_steps json_dumps st) =
       [cache_file st, cache_file st, Some '''',
        Some (json_dumps \<lparr>ensure_ascii = False, indent = Some 4, sort_keys = True\<rparr>
                (cache st))]"
  by (simp add: write_tempfile_def write_tempfile_steps_def Let_def)

text \<open>
  C8 as stated says that a crash in the middle of the save never corrupts the previous
  cache file. With a previous file and a cache that serializes to \<^verbatim>\<open>{}\<close>, the third of
  the four states a crash can leave has an empty cache file: neither the previous
  contents nor the new ones.
\<close>

theorem write_tempfile_copy_counterexample:
  "map cache_file (write_tempfile_steps (\<lambda>options c. if c = [] then ''{}'' else ''{...}'')
     \<lparr>cache = [], command_signatures = [], cache_file = Some ''{...}'',
      temp_files = [], requests = []\<rparr>)
   = [Some ''{...}'', Some ''{...}'', Some '''', Some ''{}'']"
  by (simp add: write_tempfile_steps_def Let_def)

text \<open>
  C10. \<^verbatim>\<open>reset_cache\<close> leaves the cache file empty and changes nothing else: the
  in-memory cache and the per-command signature map are as before.
\<close>

theorem reset_cache_frame:
  "reset_cache st = (Inr (), st\<lparr>cache_file := Some ''''\<rparr>)
   \<and> cache_file (snd (reset_cache st)) = Some ''''
   \<and> cache (snd (reset_cache st)) = cache st
   \<and> command_signatures (snd (reset_cache st)) = command_signatures st"
  by (simp add: reset_cache_def)


section \<open>The stub\<close>

lemma py_join_cons: "py_join sep (p # ps) = p @ concat (map (\<lambda>q. sep @ q) ps)"
  by (induction ps arbitrary: p) simp_all

lemma py_join_concat:
  "py_join sep parts =
     (case parts of [] \<Rightarrow> [] | p # ps \<Rightarrow> p @ concat (map (\<lambda>q. sep @ q) ps))"
  by (cases parts) (simp_all add: py_join_cons)

lemma lut_known:
  "dict_get lut ty =
     (if ty = ''boolean'' then Inr ''bool''
      else if ty = ''string'' then Inr ''str''
      else if ty = ''int'' then Inr ''int''
      else Inl KeyError)"
  by (simp add: dict_get_def lut_def)

lemma stub_kwargs_known:
  assumes "\<forall>(k, v)\<in>set items. data_type v \<in> {''boolean'', ''string'', ''int''}"
  shows "stub_kwargs shortname combined items kwargs =
     Inr (kwargs @ map (\<lambda>(k, v).
            (if combined then (if shortname then short v else k) @ ''('' @ short v @ '')''
             else if shortname then short v else k)
            @ ''='' @
            (if data_type v = ''boolean'' then ''bool''
             else if data_type v = ''string'' then ''str'' else ''int'')) items)"
  using assms
proof (induction items arbitrary: kwargs)
  case Nil
  show ?case by simp
next
  case (Cons kv items)
  obtain k v where kv: "kv = (k, v)" by (cases kv) auto
  have ty: "data_type v \<in> {''boolean'', ''string'', ''int''}" using Cons.prems kv by auto
  have rest: "\<forall>(k, v)\<in>set items. data_type v \<in> {''boolean'', ''string'', ''int''}"
    using Cons.prems by auto
  show ?case unfolding kv using ty Cons.IH [OF rest]
    by (auto simp: lut_known Let_def)
qed

lemma stub_kwargs_unknown:
  assumes "\<exists>(k, v)\<in>set items. data_type v \<notin> {''boolean'', ''string'', ''int''}"
  shows "stub_kwargs shortname combined items kwargs = Inl KeyError"
  using assms
proof (induction items arbitrary: kwargs)
  case Nil
  then show ?case by simp
next
  case (Cons kv items)
  obtain k v where kv: "kv = (k, v)" by (cases kv) auto
  show ?case
  proof (cases "data_type v \<in> {''boolean'', ''string'', ''int''}")
    case True
    then have "\<exists>(k, v)\<in>set items. data_type v \<notin> {''boolean'', ''string'', ''int''}"
      using Cons.prems kv by auto
    then show ?thesis unfolding kv using True Cons.IH
      by (auto simp: lut_known Let_def)
  next
    case False
    then show ?thesis unfolding kv by (simp add: lut_known Let_def)
  qed
qed

text \<open>
  C9. For a command that has been scraped, with \<open>items\<close> the entries of its signature
  in the order the dict yields them: when every data type is one of \<^verbatim>\<open>boolean\<close>,
  \<^verbatim>\<open>string\<close>, \<^verbatim>\<open>int\<close>, the stub is \<^verbatim>\<open>def <command>(*args, <flag>=<type>, ...):\<close>, a
  newline, a tab and \<^verbatim>\<open>pass\<close>, with one \<^verbatim>\<open><flag>=<type>\<close> entry per item in the order
  of the items, every entry after the first preceded by a comma and a space, the type from the table boolean to bool, string to
  str, int to int, and the flag shown as \<^verbatim>\<open>long(short)\<close> when \<open>combined\<close> is set, else as
  the short name when \<open>shortname\<close> is set, else as the long name. When some flag has a
  data type outside the table the call fails with KeyError. With \<open>combined\<close> set the
  value of \<open>shortname\<close> makes no difference.
\<close>

theorem build_command_stub_text:
  assumes "map_of (command_signatures st) command = Some items"
  shows "((\<forall>(k, v)\<in>set items. data_type v \<in> {''boolean'', ''string'', ''int''}) \<longrightarrow>
          build_command_stub st command shortname combined =
            Inr (''def '' @ command @ ''(*args, ''
                 @ (case map (\<lambda>(k, v).
                      (if combined then k @ ''('' @ short v @ '')''
                       else if shortname then short v else k)
                      @ ''='' @
                      (if data_type v = ''boolean'' then ''bool''
                       else if data_type v = ''string'' then ''str'' else ''int'')) items of
                      [] \<Rightarrow> []
                    | entry # entries \<Rightarrow>
                        entry @ concat (map (\<lambda>e. '', '' @ e) entries))
                 @ ''):'' @ [CHR 0x0A, CHR 0x09] @ ''pass''))
       \<and> ((\<exists>(k, v)\<in>set items. data_type v \<notin> {''boolean'', ''string'', ''int''}) \<longrightarrow>
          build_command_stub st command shortname combined = Inl KeyError)
       \<and> build_command_stub st command shortname True = build_command_stub st command False True"
proof (intro conjI impI)
  assume "\<forall>(k, v)\<in>set items. data_type v \<in> {''boolean'', ''string'', ''int''}"
  then show "build_command_stub st command shortname combined =
            Inr (''def '' @ command @ ''(*args, ''
                 @ (case map (\<lambda>(k, v).
                      (if combined then k @ ''('' @ short v @ '')''
                       else if shortname then short v else k)
                      @ ''='' @
                      (if data_type v = ''boolean'' then ''bool''
                       else if data_type v = ''string'' then ''str'' else ''int'')) items of
                      [] \<Rightarrow> []
                    | entry # entries \<Rightarrow>
                        entry @ concat (map (\<lambda>e. '', '' @ e) entries))
                 @ ''):'' @ [CHR 0x0A, CHR 0x09] @ ''pass'')"
    using assms
    by (cases combined)
      (simp_all add: build_command_stub_def dict_get_def stub_kwargs_known py_join_concat)
next
  assume "\<exists>(k, v)\<in>set items. data_type v \<notin> {''boolean'', ''string'', ''int''}"
  then show "build_command_stub st command shortname combined = Inl KeyError"
    using assms by (simp add: build_command_stub_def dict_get_def stub_kwargs_unknown)
next
  show "build_command_stub st command shortname True = build_command_stub st command False True"
    by (simp add: build_command_stub_def)
qed

text \<open>
  The command \<^verbatim>\<open>move\<close> with the one boolean flag \<^verbatim>\<open>translate\<close>: the stub with the default
  options, the stub with both options set, and KeyError for the data type
  \<^verbatim>\<open>distance\<close>. The command \<^verbatim>\<open>ls\<close> with three flags of the three known types: the
  entries appear in the order of the items, separated by a comma and a space, with the
  long names by default and the short names when \<open>shortname\<close> is set.
\<close>

theorem build_command_stub_text_witness:
  "build_command_stub
     \<lparr>cache = [], command_signatures =
        [(''move'', [(''translate'',
            \<lparr>short = ''t'', data_type = ''boolean'', description = ''linear distance value''\<rparr>)])],
      cache_file = None, temp_files = [], requests = []\<rparr> ''move'' False False
     = Inr (''def move(*args, translate=bool):'' @ [CHR 0x0A, CHR 0x09] @ ''pass'')
   \<and> build_command_stub
     \<lparr>cache = [], command_signatures =
        [(''move'', [(''translate'',
            \<lparr>short = ''t'', data_type = ''boolean'', description = ''linear distance value''\<rparr>)])],
      cache_file = None, temp_files = [], requests = []\<rparr> ''move'' True True
     = Inr (''def move(*args, translate(t)=bool):'' @ [CHR 0x0A, CHR 0x09] @ ''pass'')
   \<and> build_command_stub
     \<lparr>cache = [], command_signatures =
        [(''move'', [(''translate'',
            \<lparr>short = ''t'', data_type = ''distance'', description = ''linear distance value''\<rparr>)])],
      cache_file = None, temp_files = [], requests = []\<rparr> ''move'' False False
     = Inl KeyError
   \<and> build_command_stub
     \<lparr>cache = [], command_signatures =
        [(''ls'', [(''workspace'', \<lparr>short = ''ws'', data_type = ''string'', description = ''w''\<rparr>),
                   (''all'', \<lparr>short = ''a'', data_type = ''boolean'', description = ''x''\<rparr>),
                   (''count'', \<lparr>short = ''c'', data_type = ''int'', description = ''y''\<rparr>)])],
      cache_file = None, temp_files = [], requests = []\<rparr> ''ls'' False False
     = Inr (''def ls(*args, workspace=str, all=bool, count=int):''
            @ [CHR 0x0A, CHR 0x09] @ ''pass'')
   \<and> build_command_stub
     \<lparr>cache = [], command_signatures =
        [(''ls'', [(''workspace'', \<lparr>short = ''ws'', data_type = ''string'', description = ''w''\<rparr>),
                   (''all'', \<lparr>short = ''a'', data_type = ''boolean'', description = ''x''\<rparr>),
                   (''count'', \<lparr>short = ''c'', data_type = ''int'', description = ''y''\<rparr>)])],
      cache_file = None, temp_files = [], requests = []\<rparr> ''ls'' True False
     = Inr (''def ls(*args, ws=str, a=bool, c=int):'' @ [CHR 0x0A, CHR 0x09] @ ''pass'')"
proof -
  let ?b = "[(''translate'',
      \<lparr>short = ''t'', data_type = ''boolean'', description = ''linear distance value''\<rparr>)]"
  let ?d = "[(''translate'',
      \<lparr>short = ''t'', data_type = ''distance'', description = ''linear distance value''\<rparr>)]"
  let ?l = "[(''workspace'', \<lparr>short = ''ws'', data_type = ''string'', description = ''w''\<rparr>),
             (''all'', \<lparr>short = ''a'', data_type = ''boolean'', description = ''x''\<rparr>),
             (''count'', \<lparr>short = ''c'', data_type = ''int'', description = ''y''\<rparr>)]"
  let ?sb = "\<lparr>cache = [], command_signatures = [(''move'', ?b)],
      cache_file = None, temp_files = [], requests = []\<rparr>"
  let ?sd = "\<lparr>cache = [], command_signatures = [(''move'', ?d)],
      cache_file = None, temp_files = [], requests = []\<rparr>"
  let ?sl = "\<lparr>cache = [], command_signatures = [(''ls'', ?l)],
      cache_file = None, temp_files = [], requests = []\<rparr>"
  have mb: "map_of (command_signatures ?sb) ''move'' = Some ?b" by simp
  have md: "map_of (command_signatures ?sd) ''move'' = Some ?d" by simp
  have ml: "map_of (command_signatures ?sl) ''ls'' = Some ?l" by simp
  have "build_command_stub ?sb ''move'' False False
     = Inr (''def move(*args, translate=bool):'' @ [CHR 0x0A, CHR 0x09] @ ''pass'')"
    using build_command_stub_text [OF mb, of False False] by simp
  moreover have "build_command_stub ?sb ''move'' True True
     = Inr (''def move(*args, translate(t)=bool):'' @ [CHR 0x0A, CHR 0x09] @ ''pass'')"
    using build_command_stub_text [OF mb, of True True] by simp
  moreover have "build_command_stub ?sd ''move'' False False = Inl KeyError"
    using build_command_stub_text [OF md, of False False] by simp
  moreover have "build_command_stub ?sl ''ls'' False False
     = Inr (''def ls(*args, workspace=str, all=bool, count=int):''
            @ [CHR 0x0A, CHR 0x09] @ ''pass'')"
    using build_command_stub_text [OF ml, of False False] by simp
  moreover have "build_command_stub ?sl ''ls'' True False
     = Inr (''def ls(*args, ws=str, a=bool, c=int):'' @ [CHR 0x0A, CHR 0x09] @ ''pass'')"
    using build_command_stub_text [OF ml, of True False] by simp
  ultimately show ?thesis by simp
qed

end
